theory Spec2Isabelle
  imports Main "HOL-Library.Word"
begin

unbundle bit_operations_syntax

section \<open>AsyncTCPSock: the client connection of src/AsyncTCP.cpp\<close>

text \<open>
  The embedding follows \<^verbatim>\<open>AsyncClient\<close> in \<^verbatim>\<open>src/AsyncTCP.cpp\<close> and
  \<^verbatim>\<open>src/AsyncTCP.h\<close>. The target is a 32-bit MCU: \<^verbatim>\<open>uint32_t\<close> and
  \<^verbatim>\<open>size_t\<close> are \<open>32 word\<close>, \<^verbatim>\<open>uint8_t\<close> is \<open>8 word\<close>, and the C \<^verbatim>\<open>int\<close>
  values that only carry descriptors, return codes and errno numbers are \<open>int\<close>.
  Pointers are \<open>32 word\<close> addresses, \<open>0\<close> being \<^verbatim>\<open>NULL\<close>.

  The mutexes are not modelled: each operation below is one critical section
  sequence run to completion. User callbacks are external code; invoking a
  registered callback is recorded in the \<open>trace\<close> of the client, as are the
  calls into the sockets layer and the allocator that a property speaks about.
\<close>

subsection \<open>Platform constants and the answers of the environment\<close>

text \<open>
  \<^verbatim>\<open>TCP_SND_BUF\<close>, \<^verbatim>\<open>EAGAIN\<close>, \<^verbatim>\<open>EWOULDBLOCK\<close> and \<^verbatim>\<open>ERR_ABRT\<close> come from the lwIP
  headers, which are not part of the repository: they are parameters.
  \<^verbatim>\<open>EINPROGRESS\<close> is pinned to 119 by the \<^verbatim>\<open>#if\<close> in \<^verbatim>\<open>connect\<close>.
\<close>

record platform =
  TCP_SND_BUF :: "32 word"
  EAGAIN :: int
  EWOULDBLOCK :: int
  ERR_ABRT :: int

definition EINPROGRESS :: int where
  "EINPROGRESS = 119"

definition ASYNC_MAX_ACK_TIME :: "32 word" where
  "ASYNC_MAX_ACK_TIME = 5000"

definition ASYNC_WRITE_FLAG_COPY :: "8 word" where
  "ASYNC_WRITE_FLAG_COPY = 0x01"

definition ASYNC_WRITE_FLAG_MORE :: "8 word" where
  "ASYNC_WRITE_FLAG_MORE = 0x02"

text \<open>
  What the outside world answers during one operation. Every operation makes
  each of these calls at most once, so one answer per call suffices:
  \<open>millis\<close> is the clock, \<open>ret\<close> and \<open>errno\<close> the result of the single
  \<^verbatim>\<open>lwip_write\<close>, \<^verbatim>\<open>lwip_read\<close> or \<^verbatim>\<open>lwip_connect\<close> of the operation,
  \<open>getsockopt_res\<close> and \<open>sockerr\<close> the result of reading \<^verbatim>\<open>SO_ERROR\<close>,
  \<open>select_r\<close> the result of \<^verbatim>\<open>select\<close> in \<^verbatim>\<open>send\<close>, \<open>malloc_ret\<close> the pointer
  returned by \<^verbatim>\<open>malloc\<close>, \<open>socket_ret\<close> the descriptor returned by
  \<^verbatim>\<open>socket\<close>, \<open>task_started\<close> the result of \<^verbatim>\<open>_start_asyncsock_task\<close>.
\<close>

record sysenv =
  millis :: "32 word"
  ret :: int
  errno :: int
  getsockopt_res :: int
  sockerr :: int
  select_r :: int
  malloc_ret :: "32 word"
  socket_ret :: int
  task_started :: bool

subsection \<open>Data\<close>

text \<open>\<^verbatim>\<open>queued_writebuf\<close> of AsyncTCP.h; \<open>length_b\<close> is its field \<^verbatim>\<open>length\<close>.\<close>

record queued_writebuf =
  data :: "32 word"
  length_b :: "32 word"
  written :: "32 word"
  queued_at :: "32 word"
  written_at :: "32 word"
  write_errno :: int
  owned :: bool

datatype effect =
    Cb_connect
  | Cb_discard
  | Cb_sent "32 word" "32 word"
  | Cb_error int
  | Cb_recv int
  | Cb_timeout "32 word"
  | Cb_poll
  | Sys_close int
  | Sys_free "32 word"
  | Sys_write int "32 word" "32 word"
  | Sys_memcpy "32 word" "32 word" "32 word"
  | Sys_linger int
  | Sys_connect int "32 word" "16 word"

text \<open>
  The fields of \<^verbatim>\<open>AsyncSocketBase\<close> and \<^verbatim>\<open>AsyncClient\<close>, without the leading
  underscore. A callback slot is \<open>True\<close> when a handler is registered.
\<close>

record AsyncClient =
  socket :: int
  isdnsfinished :: bool
  connect_cb :: bool
  discard_cb :: bool
  sent_cb :: bool
  error_cb :: bool
  recv_cb :: bool
  timeout_cb :: bool
  poll_cb :: bool
  rx_last_packet :: "32 word"
  rx_since_timeout :: "32 word"
  ack_timeout :: "32 word"
  connect_addr :: "32 word"
  connect_port :: "16 word"
  writeQueue :: "queued_writebuf list"
  ack_timeout_signaled :: bool
  writeSpaceRemaining :: "32 word"
  conn_state :: "8 word"
  trace :: "effect list"

text \<open>
  \<^verbatim>\<open>front()\<close> of an empty \<^verbatim>\<open>std::deque\<close> is undefined behaviour; the model
  stops with this fault where the source evaluates it.
\<close>

datatype fault = Front_of_empty_queue

definition emit :: "effect \<Rightarrow> AsyncClient \<Rightarrow> AsyncClient" where
  "emit e c = c\<lparr>trace := trace c @ [e]\<rparr>"

definition fire :: "bool \<Rightarrow> effect \<Rightarrow> AsyncClient \<Rightarrow> AsyncClient" where
  "fire slot e c = (if slot then emit e c else c)"

text \<open>Conversion of an \<^verbatim>\<open>int\<close> argument to the \<^verbatim>\<open>int8_t\<close> parameter of \<^verbatim>\<open>_error\<close>.\<close>

definition int8_t :: "int \<Rightarrow> int" where
  "int8_t e = sint (word_of_int e :: 8 word)"

subsection \<open>Construction, state queries\<close>

text \<open>
  \<^verbatim>\<open>AsyncClient::AsyncClient(int sockfd)\<close>. \<^verbatim>\<open>_connect_addr\<close> has no initialiser:
  its first value \<open>addr0\<close> is whatever the memory held.
\<close>

definition AsyncClient_ctor :: "platform \<Rightarrow> 32 word \<Rightarrow> int \<Rightarrow> AsyncClient" where
  "AsyncClient_ctor P addr0 sockfd =
     (let c = \<lparr> socket = -1, isdnsfinished = False,
                connect_cb = False, discard_cb = False, sent_cb = False,
                error_cb = False, recv_cb = False, timeout_cb = False, poll_cb = False,
                rx_last_packet = 0, rx_since_timeout = 0,
                ack_timeout = ASYNC_MAX_ACK_TIME,
                connect_addr = addr0, connect_port = 0,
                writeQueue = [], ack_timeout_signaled = False,
                writeSpaceRemaining = TCP_SND_BUF P,
                conn_state = 0, trace = [] \<rparr>
      in if sockfd \<noteq> -1 then c\<lparr>conn_state := 4, socket := sockfd\<rparr> else c)"

definition connected :: "AsyncClient \<Rightarrow> bool" where
  "connected c = (if socket c = -1 then False else conn_state c = 4)"

definition freeable :: "AsyncClient \<Rightarrow> bool" where
  "freeable c = (if socket c = -1 then True else conn_state c = 0 \<or> conn_state c > 4)"

definition space :: "AsyncClient \<Rightarrow> 32 word" where
  "space c = (if \<not> connected c then 0 else writeSpaceRemaining c)"

text \<open>The setters; a handler argument is \<open>True\<close> when it is a callable.\<close>

definition setRxTimeout :: "32 word \<Rightarrow> AsyncClient \<Rightarrow> AsyncClient" where
  "setRxTimeout timeout c = c\<lparr>rx_since_timeout := timeout\<rparr>"

definition setAckTimeout :: "32 word \<Rightarrow> AsyncClient \<Rightarrow> AsyncClient" where
  "setAckTimeout timeout c = c\<lparr>ack_timeout := timeout\<rparr>"

definition onConnect :: "bool \<Rightarrow> AsyncClient \<Rightarrow> AsyncClient" where
  "onConnect cb c = c\<lparr>connect_cb := cb\<rparr>"

definition onDisconnect :: "bool \<Rightarrow> AsyncClient \<Rightarrow> AsyncClient" where
  "onDisconnect cb c = c\<lparr>discard_cb := cb\<rparr>"

definition onAck :: "bool \<Rightarrow> AsyncClient \<Rightarrow> AsyncClient" where
  "onAck cb c = c\<lparr>sent_cb := cb\<rparr>"

definition onError :: "bool \<Rightarrow> AsyncClient \<Rightarrow> AsyncClient" where
  "onError cb c = c\<lparr>error_cb := cb\<rparr>"

definition onData :: "bool \<Rightarrow> AsyncClient \<Rightarrow> AsyncClient" where
  "onData cb c = c\<lparr>recv_cb := cb\<rparr>"

definition onTimeout :: "bool \<Rightarrow> AsyncClient \<Rightarrow> AsyncClient" where
  "onTimeout cb c = c\<lparr>timeout_cb := cb\<rparr>"

definition onPoll :: "bool \<Rightarrow> AsyncClient \<Rightarrow> AsyncClient" where
  "onPoll cb c = c\<lparr>poll_cb := cb\<rparr>"

subsection \<open>Teardown\<close>

definition removeAllCallbacks :: "AsyncClient \<Rightarrow> AsyncClient" where
  "removeAllCallbacks c =
     c\<lparr>connect_cb := False, discard_cb := False, sent_cb := False, error_cb := False,
       recv_cb := False, timeout_cb := False, poll_cb := False\<rparr>"

text \<open>
  The loop of \<^verbatim>\<open>_clearWriteQueue\<close>: while the queue is non-empty, free the
  front's data if owned, then pop it. \<open>clear_from q t\<close> is the trace after the
  loop has run on queue \<open>q\<close> from trace \<open>t\<close>.
\<close>

primrec clear_from :: "queued_writebuf list \<Rightarrow> effect list \<Rightarrow> effect list" where
  "clear_from [] t = t"
| "clear_from (h # rest) t = clear_from rest (if owned h then t @ [Sys_free (data h)] else t)"

definition clearWriteQueue :: "AsyncClient \<Rightarrow> AsyncClient" where
  "clearWriteQueue c = c\<lparr>writeQueue := [], trace := clear_from (writeQueue c) (trace c)\<rparr>"

text \<open>\<^verbatim>\<open>AsyncClient::_close\<close>.\<close>

definition priv_close :: "AsyncClient \<Rightarrow> AsyncClient" where
  "priv_close c =
     (let c1 = c\<lparr>conn_state := 0\<rparr>;
          c2 = emit (Sys_close (socket c1)) c1;
          c3 = c2\<lparr>socket := -1\<rparr>;
          c4 = clearWriteQueue c3;
          c5 = fire (discard_cb c4) Cb_discard c4
      in removeAllCallbacks c5)"

text \<open>\<^verbatim>\<open>AsyncClient::_error\<close>; the argument is converted to \<^verbatim>\<open>int8_t\<close> at the call.\<close>

definition priv_error :: "int \<Rightarrow> AsyncClient \<Rightarrow> AsyncClient" where
  "priv_error err c =
     (let c1 = c\<lparr>conn_state := 0\<rparr>;
          c2 = emit (Sys_close (socket c1)) c1;
          c3 = c2\<lparr>socket := -1\<rparr>;
          c4 = clearWriteQueue c3;
          c5 = fire (error_cb c4) (Cb_error (int8_t err)) c4;
          c6 = fire (discard_cb c5) Cb_discard c5
      in removeAllCallbacks c6)"

text \<open>\<^verbatim>\<open>AsyncClient::close\<close> and \<^verbatim>\<open>AsyncClient::abort\<close>.\<close>

definition close :: "AsyncClient \<Rightarrow> AsyncClient" where
  "close c = (if socket c \<noteq> -1 then priv_close c else c)"

definition abort :: "platform \<Rightarrow> AsyncClient \<Rightarrow> int \<times> AsyncClient" where
  "abort P c =
     (if socket c \<noteq> -1 then (ERR_ABRT P, priv_close (emit (Sys_linger (socket c)) c))
      else (ERR_ABRT P, c))"

subsection \<open>The write queue\<close>

text \<open>
  \<^verbatim>\<open>AsyncClient::_flushWriteQueue\<close>: the result is \<open>(activity, client)\<close>. The
  reference \<^verbatim>\<open>qwb\<close> is bound to \<^verbatim>\<open>front()\<close> before anything is known about the
  size of the queue.
\<close>

definition flushWriteQueue ::
  "platform \<Rightarrow> sysenv \<Rightarrow> AsyncClient \<Rightarrow> fault + (bool \<times> AsyncClient)" where
  "flushWriteQueue P E c =
     (if socket c = -1 then Inr (False, c)
      else case writeQueue c of
        [] \<Rightarrow> Inl Front_of_empty_queue
      | qwb # rest \<Rightarrow>
          if write_errno qwb = 0 \<and> written qwb < length_b qwb then
            (let p = data qwb + written qwb;
                 n = length_b qwb - written qwb;
                 c1 = emit (Sys_write (socket c) p n) c;
                 r = ret E
             in if r \<ge> 0 then
                  (let q1 = qwb\<lparr>written := written qwb + word_of_int r\<rparr>;
                       q2 = (if written q1 \<ge> length_b q1
                             then q1\<lparr>written_at := millis E\<rparr> else q1)
                   in Inr (True, c1\<lparr>writeQueue := q2 # rest,
                                    writeSpaceRemaining :=
                                      writeSpaceRemaining c1 + word_of_int r\<rparr>))
                else if errno E = EAGAIN P \<or> errno E = EWOULDBLOCK P then
                  Inr (False, c1)
                else
                  Inr (False, c1\<lparr>writeQueue := qwb\<lparr>write_errno := errno E\<rparr> # rest\<rparr>))
          else Inr (False, c))"

text \<open>\<^verbatim>\<open>AsyncClient::add\<close>: the result is \<open>(bytes accepted, client)\<close>.\<close>

definition add ::
  "sysenv \<Rightarrow> 32 word \<Rightarrow> 32 word \<Rightarrow> 8 word \<Rightarrow> AsyncClient \<Rightarrow> 32 word \<times> AsyncClient" where
  "add E dat sz apiflags c =
     (if \<not> connected c \<or> dat = 0 \<or> sz \<le> 0 then (0, c)
      else
        let room = space c in
        if room = 0 then (0, c)
        else
          let will_send = (if room < sz then room else sz);
              n_entry = \<lparr> data = 0, length_b = will_send, written = 0,
                          queued_at = millis E, written_at = 0, write_errno = 0,
                          owned = False \<rparr>;
              push = (\<lambda>e c. c\<lparr>writeQueue := writeQueue c @ [e],
                               writeSpaceRemaining := writeSpaceRemaining c - will_send,
                               ack_timeout_signaled := False\<rparr>)
          in if apiflags AND ASYNC_WRITE_FLAG_COPY \<noteq> 0 then
               (if malloc_ret E = 0 then (0, c)
                else (will_send,
                      push (n_entry\<lparr>data := malloc_ret E, owned := True\<rparr>)
                           (emit (Sys_memcpy (malloc_ret E) dat will_send) c)))
             else (will_send, push (n_entry\<lparr>data := dat, owned := False\<rparr>) c))"

text \<open>\<^verbatim>\<open>AsyncClient::send\<close>: always returns true.\<close>

definition send :: "platform \<Rightarrow> sysenv \<Rightarrow> AsyncClient \<Rightarrow> fault + (bool \<times> AsyncClient)" where
  "send P E c =
     (if select_r E > 0 then
        (case flushWriteQueue P E c of
           Inl f \<Rightarrow> Inl f
         | Inr (activity, c1) \<Rightarrow> Inr (True, c1))
      else Inr (True, c))"

text \<open>\<^verbatim>\<open>AsyncClient::write(data, size, apiflags)\<close>: \<^verbatim>\<open>add\<close>, then \<^verbatim>\<open>send\<close>.\<close>

definition write_all ::
  "platform \<Rightarrow> sysenv \<Rightarrow> 32 word \<Rightarrow> 32 word \<Rightarrow> 8 word \<Rightarrow> AsyncClient
     \<Rightarrow> fault + (32 word \<times> AsyncClient)" where
  "write_all P E dat sz apiflags c =
     (let (will_send, c1) = add E dat sz apiflags c
      in if will_send = 0 then Inr (0, c1)
         else (case send P E c1 of
                 Inl f \<Rightarrow> Inl f
               | Inr (ok, c2) \<Rightarrow> if \<not> ok then Inr (0, c2) else Inr (will_send, c2)))"

subsection \<open>Connecting\<close>

text \<open>
  \<^verbatim>\<open>AsyncClient::connect(IPAddress ip, uint16_t port)\<close>. On a failed
  \<^verbatim>\<open>lwip_connect\<close> the source writes \<^verbatim>\<open>close(sockfd)\<close>: the macro \<^verbatim>\<open>close\<close>
  is undefined at the top of the file, so inside this member function the name
  is the member \<^verbatim>\<open>AsyncClient::close(bool)\<close>, called with \<^verbatim>\<open>sockfd\<close> converted
  to \<^verbatim>\<open>bool\<close>; the new descriptor itself is not closed.
\<close>

definition connect :: "sysenv \<Rightarrow> 32 word \<Rightarrow> 16 word \<Rightarrow> AsyncClient \<Rightarrow> bool \<times> AsyncClient" where
  "connect E ip port c =
     (if socket c \<noteq> -1 then (False, c)
      else if \<not> task_started E then (False, c)
      else
        let sockfd = socket_ret E in
        if sockfd < 0 then (False, c)
        else
          let c1 = emit (Sys_connect sockfd ip port) c in
          if ret E < 0 \<and> errno E \<noteq> EINPROGRESS then (False, close c1)
          else (True, c1\<lparr>conn_state := 2, socket := sockfd\<rparr>))"

text \<open>
  \<^verbatim>\<open>AsyncClient::connect(const char* host, uint16_t port)\<close>: the resolver answers
  at once with an address, or reports that the lookup is in progress, or fails.
\<close>

datatype dns_answer = Dns_ok "32 word" | Dns_inprogress | Dns_failed

definition connect_host ::
  "sysenv \<Rightarrow> dns_answer \<Rightarrow> 16 word \<Rightarrow> AsyncClient \<Rightarrow> bool \<times> AsyncClient" where
  "connect_host E ans port c =
     (if \<not> task_started E then (False, c)
      else case ans of
        Dns_ok addr \<Rightarrow> connect E addr port c
      | Dns_inprogress \<Rightarrow> (True, c\<lparr>connect_port := port\<rparr>)
      | Dns_failed \<Rightarrow> (False, c))"

text \<open>\<^verbatim>\<open>_tcpsock_dns_found\<close>: \<open>None\<close> is a null \<^verbatim>\<open>ipaddr\<close>.\<close>

definition tcpsock_dns_found :: "32 word option \<Rightarrow> AsyncClient \<Rightarrow> AsyncClient" where
  "tcpsock_dns_found ipaddr c =
     (case ipaddr of
        Some a \<Rightarrow> c\<lparr>connect_addr := a, isdnsfinished := True\<rparr>
      | None \<Rightarrow> c\<lparr>connect_addr := 0, isdnsfinished := True\<rparr>)"

subsection \<open>The four hooks\<close>

text \<open>\<^verbatim>\<open>AsyncClient::_sockDelayedConnect\<close>.\<close>

definition sockDelayedConnect :: "sysenv \<Rightarrow> AsyncClient \<Rightarrow> AsyncClient" where
  "sockDelayedConnect E c =
     (if connect_addr c \<noteq> 0 then snd (connect E (connect_addr c) (connect_port c) c)
      else
        let c1 = fire (error_cb c) (Cb_error (-55)) c
        in fire (discard_cb c1) Cb_discard c1)"

text \<open>\<^verbatim>\<open>AsyncClient::_sockIsWriteable\<close>: the result is \<open>(activity, client)\<close>.\<close>

definition sockIsWriteable ::
  "platform \<Rightarrow> sysenv \<Rightarrow> AsyncClient \<Rightarrow> fault + (bool \<times> AsyncClient)" where
  "sockIsWriteable P E c =
     (if conn_state c = 2 \<or> conn_state c = 3 then
        (if getsockopt_res E < 0 then Inr (False, priv_error (errno E) c)
         else if sockerr E \<noteq> 0 then Inr (False, priv_error (sockerr E) c)
         else
           let c1 = c\<lparr>conn_state := 4, rx_last_packet := millis E,
                      ack_timeout_signaled := False\<rparr>
           in Inr (True, fire (connect_cb c1) Cb_connect c1))
      else
        (case writeQueue c of
           [] \<Rightarrow> Inr (False, c)
         | x # xs \<Rightarrow>
            (case flushWriteQueue P E c of
               Inl f \<Rightarrow> Inl f
             | Inr (activity, c1) \<Rightarrow>
                (case writeQueue c1 of
                   [] \<Rightarrow> Inl Front_of_empty_queue
                 | h # rest \<Rightarrow>
                    if write_errno h \<noteq> 0 then
                      Inr (activity, priv_error (write_errno h) c1)
                    else if written h \<ge> length_b h then
                      (let c2 = (if written_at h > rx_last_packet c1
                                 then c1\<lparr>rx_last_packet := written_at h\<rparr> else c1);
                           c3 = (if owned h then emit (Sys_free (data h)) c2 else c2);
                           sent_cb_length = length_b h;
                           sent_cb_delay = written_at h - queued_at h;
                           c4 = c3\<lparr>writeQueue := rest\<rparr>
                       in Inr (activity,
                               if sent_cb_length > 0 \<and> sent_cb c4
                               then emit (Cb_sent sent_cb_length sent_cb_delay) c4
                               else c4))
                    else Inr (activity, c1)))))"

text \<open>\<^verbatim>\<open>AsyncClient::_sockIsReadable\<close>.\<close>

definition sockIsReadable :: "platform \<Rightarrow> sysenv \<Rightarrow> AsyncClient \<Rightarrow> AsyncClient" where
  "sockIsReadable P E c =
     (let c1 = c\<lparr>rx_last_packet := millis E\<rparr>;
          r = ret E
      in if r > 0 then fire (recv_cb c1) (Cb_recv r) c1
         else if r = 0 then priv_close c1
         else if errno E = EAGAIN P \<or> errno E = EWOULDBLOCK P then c1
         else priv_error (errno E) c1)"

text \<open>
  \<^verbatim>\<open>AsyncClient::_sockPoll\<close>. \<^verbatim>\<open>sent_delay\<close> is computed from
  \<^verbatim>\<open>_writeQueue.front().queued_at\<close> on the line before the test of
  \<^verbatim>\<open>_writeQueue.size() > 0\<close>.
\<close>

definition sockPoll :: "sysenv \<Rightarrow> AsyncClient \<Rightarrow> fault + AsyncClient" where
  "sockPoll E c =
     (if socket c = -1 then Inr c
      else
        let now = millis E in
        case writeQueue c of
          [] \<Rightarrow> Inl Front_of_empty_queue
        | h # rest \<Rightarrow>
            let sent_delay = now - queued_at h in
            if length (writeQueue c) > 0 \<and> \<not> ack_timeout_signaled c \<and> ack_timeout c \<noteq> 0
               \<and> sent_delay \<ge> ack_timeout c
            then Inr (fire (timeout_cb c) (Cb_timeout sent_delay)
                        (c\<lparr>ack_timeout_signaled := True\<rparr>))
            else if rx_since_timeout c \<noteq> 0
                    \<and> now - rx_last_packet c \<ge> rx_since_timeout c * 1000
            then Inr (priv_close c)
            else Inr (fire (poll_cb c) Cb_poll c))"

subsection \<open>Sequences of operations\<close>

text \<open>
  What can happen to one client: the calls of the public interface, the
  resolver's callback, and the four hooks the service loop invokes (the loop
  clears \<^verbatim>\<open>_isdnsfinished\<close> just before the delayed-connect hook). Each
  operation carries the answers of the environment it runs against.
\<close>

datatype op =
    Op_add sysenv "32 word" "32 word" "8 word"
  | Op_send sysenv
  | Op_write sysenv "32 word" "32 word" "8 word"
  | Op_flush sysenv
  | Op_connect sysenv "32 word" "16 word"
  | Op_connect_host sysenv dns_answer "16 word"
  | Op_dns_found "32 word option"
  | Op_close
  | Op_abort
  | Op_setRxTimeout "32 word"
  | Op_setAckTimeout "32 word"
  | Op_onConnect bool
  | Op_onDisconnect bool
  | Op_onAck bool
  | Op_onError bool
  | Op_onData bool
  | Op_onTimeout bool
  | Op_onPoll bool
  | Hook_writeable sysenv
  | Hook_readable sysenv
  | Hook_poll sysenv
  | Hook_delayed_connect sysenv

fun step :: "platform \<Rightarrow> op \<Rightarrow> AsyncClient \<Rightarrow> fault + AsyncClient" where
  "step P (Op_add E dat sz fl) c = Inr (snd (add E dat sz fl c))"
| "step P (Op_send E) c = map_sum id snd (send P E c)"
| "step P (Op_write E dat sz fl) c = map_sum id snd (write_all P E dat sz fl c)"
| "step P (Op_flush E) c = map_sum id snd (flushWriteQueue P E c)"
| "step P (Op_connect E ip port) c = Inr (snd (connect E ip port c))"
| "step P (Op_connect_host E ans port) c = Inr (snd (connect_host E ans port c))"
| "step P (Op_dns_found ipaddr) c = Inr (tcpsock_dns_found ipaddr c)"
| "step P Op_close c = Inr (close c)"
| "step P Op_abort c = Inr (snd (abort P c))"
| "step P (Op_setRxTimeout t) c = Inr (setRxTimeout t c)"
| "step P (Op_setAckTimeout t) c = Inr (setAckTimeout t c)"
| "step P (Op_onConnect cb) c = Inr (onConnect cb c)"
| "step P (Op_onDisconnect cb) c = Inr (onDisconnect cb c)"
| "step P (Op_onAck cb) c = Inr (onAck cb c)"
| "step P (Op_onError cb) c = Inr (onError cb c)"
| "step P (Op_onData cb) c = Inr (onData cb c)"
| "step P (Op_onTimeout cb) c = Inr (onTimeout cb c)"
| "step P (Op_onPoll cb) c = Inr (onPoll cb c)"
| "step P (Hook_writeable E) c = map_sum id snd (sockIsWriteable P E c)"
| "step P (Hook_readable E) c = Inr (sockIsReadable P E c)"
| "step P (Hook_poll E) c = sockPoll E c"
| "step P (Hook_delayed_connect E) c = Inr (sockDelayedConnect E (c\<lparr>isdnsfinished := False\<rparr>))"

text \<open>Running a sequence stops at the first fault.\<close>

fun run :: "platform \<Rightarrow> op list \<Rightarrow> AsyncClient \<Rightarrow> fault + AsyncClient" where
  "run P [] c = Inr c"
| "run P (x # xs) c = (case step P x c of Inl f \<Rightarrow> Inl f | Inr c' \<Rightarrow> run P xs c')"

subsection \<open>Vocabulary of the properties\<close>

text \<open>The effects an operation added to the trace.\<close>

definition new_events :: "AsyncClient \<Rightarrow> AsyncClient \<Rightarrow> effect list" where
  "new_events c c' = drop (length (trace c)) (trace c')"

text \<open>The \<^verbatim>\<open>free\<close> calls that release the owned buffers of a queue, in order.\<close>

definition frees_of :: "queued_writebuf list \<Rightarrow> effect list" where
  "frees_of q = map (\<lambda>b. Sys_free (data b)) (filter owned q)"

fun is_timeout :: "effect \<Rightarrow> bool" where
  "is_timeout (Cb_timeout d) = True"
| "is_timeout e = False"

fun is_sent :: "effect \<Rightarrow> bool" where
  "is_sent (Cb_sent n d) = True"
| "is_sent e = False"

fun is_write :: "effect \<Rightarrow> bool" where
  "is_write (Sys_write fd p n) = True"
| "is_write e = False"

fun is_error :: "effect \<Rightarrow> bool" where
  "is_error (Cb_error e) = True"
| "is_error e = False"

text \<open>Descriptor and state agree: the descriptor is \<open>-1\<close> exactly in state CLOSED.\<close>

definition coherent :: "AsyncClient \<Rightarrow> bool" where
  "coherent c = ((socket c = -1) = (conn_state c = 0))"


text \<open>No queued buffer has length zero.\<close>

definition nonzero_lengths :: "AsyncClient \<Rightarrow> bool" where
  "nonzero_lengths c = list_all (\<lambda>b. 0 < length_b b) (writeQueue c)"


text \<open>
  The operations after which the ack-timeout latch may be clear again: those
  that enqueue, and those that start a connect (the writable hook clears the
  latch when a connect completes).
\<close>

fun rearms :: "op \<Rightarrow> bool" where
  "rearms (Op_add E dat sz fl) = True"
| "rearms (Op_write E dat sz fl) = True"
| "rearms (Op_connect E ip port) = True"
| "rearms (Op_connect_host E ans port) = True"
| "rearms (Hook_delayed_connect E) = True"
| "rearms x = False"

text \<open>The latch is set and no connect is in progress.\<close>

definition latched :: "AsyncClient \<Rightarrow> bool" where
  "latched c = (ack_timeout_signaled c \<and> conn_state c \<noteq> 2 \<and> conn_state c \<noteq> 3)"

text \<open>The ack-timeout notifications fired so far.\<close>

definition timeouts :: "AsyncClient \<Rightarrow> effect list" where
  "timeouts c = filter is_timeout (trace c)"

subsection \<open>Concrete clients and environments\<close>

text \<open>
  The lwIP values of the platform constants, an environment in which every call
  succeeds, a client as the constructor leaves it over the accepted descriptor
  7, and that client after \<^verbatim>\<open>add\<close> has queued a copy of 10 bytes at time 0.
\<close>

definition lwip :: platform where
  "lwip = \<lparr> TCP_SND_BUF = 5840, EAGAIN = 11, EWOULDBLOCK = 11, ERR_ABRT = -13 \<rparr>"

definition quiet :: sysenv where
  "quiet = \<lparr> millis = 1000, ret = 0, errno = 0, getsockopt_res = 0, sockerr = 0,
             select_r = 1, malloc_ret = 0x3FFB0000, socket_ret = 5, task_started = True \<rparr>"

definition accepted :: AsyncClient where
  "accepted = AsyncClient_ctor lwip 0 7"

definition one_queued :: AsyncClient where
  "one_queued =
     snd (add (quiet\<lparr>millis := 0\<rparr>) 0x3FFC0000 10 ASYNC_WRITE_FLAG_COPY accepted)"

definition two_queued :: AsyncClient where
  "two_queued = snd (add (quiet\<lparr>millis := 0\<rparr>) 0x3FFC0010 4 0 one_queued)"

definition unresolved :: AsyncClient where
  "unresolved = (AsyncClient_ctor lwip 0 (-1))\<lparr>error_cb := True, discard_cb := True\<rparr>"

section \<open>Properties\<close>

subsection \<open>Auxiliary facts\<close>

lemma accepted_eq:
  "accepted = \<lparr> socket = 7, isdnsfinished = False,
                connect_cb = False, discard_cb = False, sent_cb = False,
                error_cb = False, recv_cb = False, timeout_cb = False, poll_cb = False,
                rx_last_packet = 0, rx_since_timeout = 0,
                ack_timeout = 5000,
                connect_addr = 0, connect_port = 0,
                writeQueue = [], ack_timeout_signaled = False,
                writeSpaceRemaining = 5840,
                conn_state = 4, trace = [] \<rparr>"
  by (simp add: accepted_def AsyncClient_ctor_def lwip_def ASYNC_MAX_ACK_TIME_def)

lemma one_queued_eq:
  "one_queued = accepted\<lparr>writeQueue :=
        [\<lparr> data = 0x3FFB0000, length_b = 10, written = 0, queued_at = 0, written_at = 0,
           write_errno = 0, owned = True \<rparr>],
      writeSpaceRemaining := 5830,
      trace := [Sys_memcpy 0x3FFB0000 0x3FFC0000 10]\<rparr>"
  by (simp add: one_queued_def accepted_eq add_def connected_def space_def Let_def emit_def
      quiet_def ASYNC_WRITE_FLAG_COPY_def)

lemma two_queued_eq:
  "two_queued = accepted\<lparr>writeQueue :=
        [\<lparr> data = 0x3FFB0000, length_b = 10, written = 0, queued_at = 0, written_at = 0,
           write_errno = 0, owned = True \<rparr>,
         \<lparr> data = 0x3FFC0010, length_b = 4, written = 0, queued_at = 0, written_at = 0,
           write_errno = 0, owned = False \<rparr>],
      writeSpaceRemaining := 5826,
      trace := [Sys_memcpy 0x3FFB0000 0x3FFC0000 10]\<rparr>"
  by (simp add: two_queued_def one_queued_eq accepted_eq add_def connected_def space_def
      Let_def emit_def quiet_def ASYNC_WRITE_FLAG_COPY_def)

lemma unresolved_eq:
  "unresolved = \<lparr> socket = -1, isdnsfinished = False,
                connect_cb = False, discard_cb = True, sent_cb = False,
                error_cb = True, recv_cb = False, timeout_cb = False, poll_cb = False,
                rx_last_packet = 0, rx_since_timeout = 0,
                ack_timeout = 5000,
                connect_addr = 0, connect_port = 0,
                writeQueue = [], ack_timeout_signaled = False,
                writeSpaceRemaining = 5840,
                conn_state = 0, trace = [] \<rparr>"
  by (simp add: unresolved_def AsyncClient_ctor_def lwip_def ASYNC_MAX_ACK_TIME_def)

lemma clear_from_eq: "clear_from q t = t @ frees_of q"
  by (induction q arbitrary: t) (simp_all add: frees_of_def)

lemma priv_close_eq:
  "priv_close c =
     removeAllCallbacks
       (c\<lparr>conn_state := 0, socket := -1, writeQueue := [],
          trace := trace c @ [Sys_close (socket c)] @ frees_of (writeQueue c)
                   @ (if discard_cb c then [Cb_discard] else [])\<rparr>)"
  by (simp add: priv_close_def Let_def emit_def fire_def clearWriteQueue_def clear_from_eq
      removeAllCallbacks_def)

lemma priv_error_eq:
  "priv_error err c =
     removeAllCallbacks
       (c\<lparr>conn_state := 0, socket := -1, writeQueue := [],
          trace := trace c @ [Sys_close (socket c)] @ frees_of (writeQueue c)
                   @ (if error_cb c then [Cb_error (int8_t err)] else [])
                   @ (if discard_cb c then [Cb_discard] else [])\<rparr>)"
  by (simp add: priv_error_def Let_def emit_def fire_def clearWriteQueue_def clear_from_eq
      removeAllCallbacks_def)

lemma flush_total:
  "writeQueue c = x # xs \<Longrightarrow>
   \<exists>act c1 h. flushWriteQueue P E c = Inr (act, c1) \<and> writeQueue c1 = h # xs"
  by (auto simp add: flushWriteQueue_def Let_def emit_def)

lemma flush_queue_nonempty:
  "flushWriteQueue P E c = Inr (act, c1) \<Longrightarrow> writeQueue c1 = h # rest \<Longrightarrow>
   \<exists>x. writeQueue c = x # rest"
  by (cases "writeQueue c")
     (auto simp add: flushWriteQueue_def Let_def emit_def split: if_splits)

lemma flush_fields:
  "flushWriteQueue P E c = Inr (act, c1) \<Longrightarrow>
   conn_state c1 = conn_state c \<and> socket c1 = socket c \<and> sent_cb c1 = sent_cb c
   \<and> rx_last_packet c1 = rx_last_packet c \<and> rx_since_timeout c1 = rx_since_timeout c
   \<and> ack_timeout_signaled c1 = ack_timeout_signaled c \<and> ack_timeout c1 = ack_timeout c"
  by (cases "writeQueue c")
     (auto simp add: flushWriteQueue_def Let_def emit_def split: if_splits)

lemma flush_trace:
  "flushWriteQueue P E c = Inr (act, c1) \<Longrightarrow>
   filter is_sent (new_events c c1) = [] \<and> filter is_timeout (new_events c c1) = []"
  by (cases "writeQueue c")
     (auto simp add: flushWriteQueue_def Let_def emit_def new_events_def split: if_splits)

lemma flush_trace_prefix:
  "flushWriteQueue P E c = Inr (act, c1) \<Longrightarrow> \<exists>es. trace c1 = trace c @ es"
  by (cases "writeQueue c")
     (auto simp add: flushWriteQueue_def Let_def emit_def split: if_splits)

lemma writeable_after_flush:
  assumes st: "conn_state c \<noteq> 2" "conn_state c \<noteq> 3"
      and fl: "flushWriteQueue P E c = Inr (act, c1)"
      and q1: "writeQueue c1 = h # rest"
  shows "sockIsWriteable P E c =
           Inr (act, if write_errno h \<noteq> 0 then priv_error (write_errno h) c1
                     else if length_b h \<le> written h then
                       c1\<lparr>rx_last_packet := max (rx_last_packet c1) (written_at h),
                          writeQueue := rest,
                          trace := trace c1
                            @ (if owned h then [Sys_free (data h)] else [])
                            @ (if 0 < length_b h \<and> sent_cb c1
                               then [Cb_sent (length_b h) (written_at h - queued_at h)]
                               else [])\<rparr>
                     else c1)"
proof -
  obtain x where q: "writeQueue c = x # rest"
    using flush_queue_nonempty [OF fl q1] by blast
  show ?thesis
    unfolding sockIsWriteable_def
    by (simp add: st q fl q1 Let_def emit_def max_def)
qed

lemma poll_keeps_open:
  assumes p: "sockPoll E c = Inr c'"
      and fresh: "\<not> (rx_since_timeout c \<noteq> 0
                     \<and> rx_since_timeout c * 1000 \<le> millis E - rx_last_packet c)"
  shows "socket c' = socket c \<and> conn_state c' = conn_state c"
  using p fresh
  by (cases "writeQueue c")
     (auto simp add: sockPoll_def Let_def fire_def emit_def split: if_splits)

lemma add_fields:
  "socket (snd (add E d sz fl c)) = socket c
   \<and> conn_state (snd (add E d sz fl c)) = conn_state c"
  by (simp add: add_def Let_def emit_def)

lemma send_fields:
  "send P E c = Inr (b, c') \<Longrightarrow> socket c' = socket c \<and> conn_state c' = conn_state c"
  by (auto simp add: send_def split: if_splits sum.splits dest: flush_fields)

lemma write_all_fields:
  "write_all P E d sz fl c = Inr (n, c') \<Longrightarrow>
   socket c' = socket c \<and> conn_state c' = conn_state c"
  using add_fields [of E d sz fl c]
  by (auto simp add: write_all_def Let_def split: if_splits sum.splits prod.splits
      dest!: send_fields)

lemma teardown_fields:
  "socket (priv_close c) = -1" "conn_state (priv_close c) = 0"
  "socket (priv_error err c) = -1" "conn_state (priv_error err c) = 0"
  by (simp_all add: priv_close_eq priv_error_eq removeAllCallbacks_def)

lemma coherent_priv_close: "coherent (priv_close c)"
  by (simp add: coherent_def priv_close_eq removeAllCallbacks_def)

lemma coherent_priv_error: "coherent (priv_error err c)"
  by (simp add: coherent_def priv_error_eq removeAllCallbacks_def)

lemma coherent_connect: "coherent c \<Longrightarrow> coherent (snd (connect E ip port c))"
  by (auto simp add: coherent_def connect_def close_def Let_def emit_def)

lemma coherent_connect_host: "coherent c \<Longrightarrow> coherent (snd (connect_host E ans port c))"
  using coherent_connect [of c E _ port]
  by (cases ans) (auto simp add: connect_host_def coherent_def)

lemma coherent_writeable:
  assumes co: "coherent c" and w: "sockIsWriteable P E c = Inr (a, c')"
  shows "coherent c'"
proof (cases "conn_state c = 2 \<or> conn_state c = 3")
  case True
  then show ?thesis
    using co w
    by (auto simp add: sockIsWriteable_def Let_def fire_def emit_def teardown_fields
        coherent_def split: if_splits)
next
  case st: False
  show ?thesis
  proof (cases "writeQueue c")
    case Nil
    then show ?thesis using co w st by (simp add: sockIsWriteable_def)
  next
    case (Cons x xs)
    obtain act c1 h where fl: "flushWriteQueue P E c = Inr (act, c1)"
      and q1: "writeQueue c1 = h # xs"
      using flush_total [OF Cons, of P E] by blast
    have st': "conn_state c \<noteq> 2" "conn_state c \<noteq> 3" using st by simp_all
    note ff = flush_fields [OF fl]
    have c1: "coherent c1" using co ff by (simp add: coherent_def)
    show ?thesis
      using w writeable_after_flush [OF st' fl q1] c1
      by (auto simp add: teardown_fields coherent_def split: if_splits)
  qed
qed

lemma coherent_readable: "coherent c \<Longrightarrow> coherent (sockIsReadable P E c)"
  by (auto simp add: sockIsReadable_def Let_def fire_def emit_def teardown_fields
      coherent_def)

lemma coherent_poll: "coherent c \<Longrightarrow> sockPoll E c = Inr c' \<Longrightarrow> coherent c'"
  by (cases "writeQueue c")
     (auto simp add: sockPoll_def Let_def fire_def emit_def teardown_fields coherent_def
        split: if_splits)

lemma coherent_delayed: "coherent c \<Longrightarrow> coherent (sockDelayedConnect E (c\<lparr>isdnsfinished := False\<rparr>))"
  using coherent_connect [of "c\<lparr>isdnsfinished := False\<rparr>" E]
  by (auto simp add: sockDelayedConnect_def Let_def fire_def emit_def coherent_def)

lemma coherent_step:
  assumes co: "coherent c" and s: "step P x c = Inr c'"
  shows "coherent c'"
proof (cases x)
  case (Op_add E d sz fl)
  then show ?thesis using co s add_fields [of E d sz fl c] by (auto simp add: coherent_def)
next
  case (Op_send E)
  then show ?thesis using co s
    by (cases "send P E c") (auto simp add: coherent_def dest!: send_fields)
next
  case (Op_write E d sz fl)
  then show ?thesis using co s
    by (cases "write_all P E d sz fl c") (auto simp add: coherent_def dest!: write_all_fields)
next
  case (Op_flush E)
  then show ?thesis using co s
    by (cases "flushWriteQueue P E c") (auto simp add: coherent_def dest!: flush_fields)
next
  case (Op_connect E ip port)
  then show ?thesis using co s coherent_connect by auto
next
  case (Op_connect_host E ans port)
  then show ?thesis using co s coherent_connect_host by auto
next
  case (Op_dns_found a)
  then show ?thesis using co s
    by (cases a) (auto simp add: tcpsock_dns_found_def coherent_def)
next
  case Op_close
  then show ?thesis using co s by (auto simp add: close_def coherent_priv_close)
next
  case Op_abort
  then show ?thesis using co s by (auto simp add: abort_def coherent_priv_close)
next
  case (Hook_writeable E)
  then show ?thesis using co s
    by (cases "sockIsWriteable P E c") (auto dest: coherent_writeable)
next
  case (Hook_readable E)
  then show ?thesis using co s coherent_readable by auto
next
  case (Hook_poll E)
  then show ?thesis using co s coherent_poll by auto
next
  case (Hook_delayed_connect E)
  then show ?thesis using co s coherent_delayed by auto
qed (use co s in \<open>auto simp add: coherent_def setRxTimeout_def setAckTimeout_def onConnect_def
      onDisconnect_def onAck_def onError_def onData_def onTimeout_def onPoll_def\<close>)

lemma coherent_run: "coherent c \<Longrightarrow> run P ops c = Inr c' \<Longrightarrow> coherent c'"
proof (induction ops arbitrary: c)
  case Nil
  then show ?case by simp
next
  case (Cons x xs)
  then show ?case
    by (cases "step P x c") (auto dest: coherent_step)
qed

lemma coherent_ctor: "coherent (AsyncClient_ctor P a fd)"
  by (simp add: coherent_def AsyncClient_ctor_def Let_def)







lemma timeouts_simps:
  "timeouts (emit e c) = timeouts c @ (if is_timeout e then [e] else [])"
  "timeouts (c\<lparr>rx_last_packet := t\<rparr>) = timeouts c"
  "timeouts (c\<lparr>ack_timeout_signaled := b\<rparr>) = timeouts c"
  by (simp_all add: timeouts_def emit_def)

lemma frees_no_timeout: "filter is_timeout (frees_of q) = []"
  by (induction q) (simp_all add: frees_of_def)

lemma teardown_latch:
  "ack_timeout_signaled (priv_close c) = ack_timeout_signaled c"
  "ack_timeout_signaled (priv_error err c) = ack_timeout_signaled c"
  "timeouts (priv_close c) = timeouts c"
  "timeouts (priv_error err c) = timeouts c"
  by (simp_all add: priv_close_eq priv_error_eq removeAllCallbacks_def timeouts_def
      frees_no_timeout)

lemma flush_timeouts:
  "flushWriteQueue P E c = Inr (act, c1) \<Longrightarrow> timeouts c1 = timeouts c"
  by (cases "writeQueue c")
     (auto simp add: flushWriteQueue_def Let_def emit_def timeouts_def split: if_splits)

lemma latched_flush:
  "latched c \<Longrightarrow> flushWriteQueue P E c = Inr (act, c1) \<Longrightarrow>
   latched c1 \<and> timeouts c1 = timeouts c"
  using flush_fields [of P E c act c1] flush_timeouts [of P E c act c1]
  by (simp add: latched_def)

lemma latched_writeable:
  assumes l: "latched c" and w: "sockIsWriteable P E c = Inr (a, c')"
  shows "latched c' \<and> timeouts c' = timeouts c"
proof (cases "writeQueue c")
  case Nil
  then show ?thesis using l w by (simp add: sockIsWriteable_def latched_def)
next
  case (Cons x xs)
  have st: "conn_state c \<noteq> 2" "conn_state c \<noteq> 3" using l by (simp_all add: latched_def)
  obtain act c1 h where fl: "flushWriteQueue P E c = Inr (act, c1)"
    and q1: "writeQueue c1 = h # xs"
    using flush_total [OF Cons, of P E] by blast
  note l1 = latched_flush [OF l fl]
  show ?thesis
    using w writeable_after_flush [OF st fl q1] l1
    by (auto simp add: latched_def teardown_latch teardown_fields split: if_splits)
       (simp_all add: timeouts_def)
qed

lemma latched_readable:
  "latched c \<Longrightarrow> latched (sockIsReadable P E c)
     \<and> timeouts (sockIsReadable P E c) = timeouts c"
  by (auto simp add: sockIsReadable_def Let_def fire_def latched_def
      teardown_latch teardown_fields timeouts_simps)
     (simp_all add: emit_def)

lemma latched_poll:
  "latched c \<Longrightarrow> sockPoll E c = Inr c' \<Longrightarrow> latched c' \<and> timeouts c' = timeouts c"
  by (cases "writeQueue c")
     (auto simp add: sockPoll_def Let_def fire_def latched_def
        teardown_latch teardown_fields timeouts_simps split: if_splits,
      simp_all add: emit_def)

lemma latched_step:
  assumes l: "latched c" and ok: "\<not> rearms x" and s: "step P x c = Inr c'"
  shows "latched c' \<and> timeouts c' = timeouts c"
proof (cases x)
  case (Op_send E)
  then show ?thesis using l s
    by (cases "flushWriteQueue P E c")
       (auto simp add: send_def split: if_splits dest: latched_flush)
next
  case (Op_flush E)
  then show ?thesis using l s
    by (cases "flushWriteQueue P E c") (auto dest: latched_flush)
next
  case (Op_dns_found a)
  then show ?thesis using l s
    by (cases a) (auto simp add: tcpsock_dns_found_def latched_def timeouts_def)
next
  case Op_close
  then show ?thesis using l s
    by (auto simp add: close_def latched_def teardown_latch teardown_fields split: if_splits)
next
  case Op_abort
  then show ?thesis using l s
    by (auto simp add: abort_def latched_def teardown_latch teardown_fields
        timeouts_simps split: if_splits)
       (simp_all add: emit_def)
next
  case (Hook_writeable E)
  then show ?thesis using l s
    by (cases "sockIsWriteable P E c") (auto dest: latched_writeable)
next
  case (Hook_readable E)
  then show ?thesis using l s latched_readable by auto
next
  case (Hook_poll E)
  then show ?thesis using l s latched_poll by auto
qed (use l ok s in \<open>auto simp add: latched_def timeouts_def setRxTimeout_def setAckTimeout_def
      onConnect_def onDisconnect_def onAck_def onError_def onData_def onTimeout_def
      onPoll_def\<close>)

lemma latched_run:
  "latched c \<Longrightarrow> list_all (\<lambda>x. \<not> rearms x) ops \<Longrightarrow> run P ops c = Inr c' \<Longrightarrow>
   latched c' \<and> timeouts c' = timeouts c"
proof (induction ops arbitrary: c)
  case Nil
  then show ?case by simp
next
  case (Cons x xs)
  show ?case
  proof (cases "step P x c")
    case (Inl f)
    then show ?thesis using Cons.prems by simp
  next
    case (Inr c1)
    have l1: "latched c1 \<and> timeouts c1 = timeouts c"
      using latched_step [of c x P c1] Cons.prems Inr by simp
    have "latched c' \<and> timeouts c' = timeouts c1"
      using Cons.IH [of c1] l1 Cons.prems Inr by simp
    then show ?thesis using l1 by simp
  qed
qed

lemma teardown_queue:
  "writeQueue (priv_close c) = []" "writeQueue (priv_error err c) = []"
  by (simp_all add: priv_close_eq priv_error_eq removeAllCallbacks_def)

lemma nz_add: "nonzero_lengths c \<Longrightarrow> nonzero_lengths (snd (add E d sz fl c))"
  by (auto simp add: nonzero_lengths_def add_def Let_def emit_def word_gt_0)

lemma nz_flush:
  "nonzero_lengths c \<Longrightarrow> flushWriteQueue P E c = Inr (act, c1) \<Longrightarrow> nonzero_lengths c1"
  by (cases "writeQueue c")
     (auto simp add: nonzero_lengths_def flushWriteQueue_def Let_def emit_def split: if_splits)

lemma nz_send: "nonzero_lengths c \<Longrightarrow> send P E c = Inr (b, c') \<Longrightarrow> nonzero_lengths c'"
  by (cases "flushWriteQueue P E c") (auto simp add: send_def split: if_splits dest: nz_flush)

lemma nz_write_all:
  "nonzero_lengths c \<Longrightarrow> write_all P E d sz fl c = Inr (n, c') \<Longrightarrow> nonzero_lengths c'"
  using nz_add [of c E d sz fl]
  by (cases "send P E (snd (add E d sz fl c))")
     (auto simp add: write_all_def Let_def split: if_splits prod.splits dest: nz_send)

lemma nz_connect: "nonzero_lengths c \<Longrightarrow> nonzero_lengths (snd (connect E ip port c))"
  by (auto simp add: nonzero_lengths_def connect_def close_def Let_def emit_def teardown_queue)

lemma nz_connect_host:
  "nonzero_lengths c \<Longrightarrow> nonzero_lengths (snd (connect_host E ans port c))"
  using nz_connect [of c E _ port]
  by (cases ans) (auto simp add: connect_host_def nonzero_lengths_def)

lemma nz_writeable:
  assumes nz: "nonzero_lengths c" and w: "sockIsWriteable P E c = Inr (a, c')"
  shows "nonzero_lengths c'"
proof (cases "conn_state c = 2 \<or> conn_state c = 3")
  case True
  then show ?thesis
    using nz w
    by (auto simp add: sockIsWriteable_def Let_def fire_def emit_def teardown_queue
        nonzero_lengths_def split: if_splits)
next
  case st: False
  show ?thesis
  proof (cases "writeQueue c")
    case Nil
    then show ?thesis using nz w st by (simp add: sockIsWriteable_def)
  next
    case (Cons x xs)
    obtain act c1 h where fl: "flushWriteQueue P E c = Inr (act, c1)"
      and q1: "writeQueue c1 = h # xs"
      using flush_total [OF Cons, of P E] by blast
    have st': "conn_state c \<noteq> 2" "conn_state c \<noteq> 3" using st by simp_all
    have n1: "nonzero_lengths c1" using nz_flush [OF nz fl] .
    show ?thesis
      using w writeable_after_flush [OF st' fl q1] n1 q1
      by (auto simp add: teardown_queue nonzero_lengths_def split: if_splits)
  qed
qed

lemma nz_readable: "nonzero_lengths c \<Longrightarrow> nonzero_lengths (sockIsReadable P E c)"
  by (auto simp add: sockIsReadable_def Let_def fire_def emit_def teardown_queue
      nonzero_lengths_def)

lemma nz_poll: "nonzero_lengths c \<Longrightarrow> sockPoll E c = Inr c' \<Longrightarrow> nonzero_lengths c'"
  by (cases "writeQueue c")
     (auto simp add: sockPoll_def Let_def fire_def emit_def teardown_queue nonzero_lengths_def
        split: if_splits)

lemma nz_delayed:
  "nonzero_lengths c \<Longrightarrow> nonzero_lengths (sockDelayedConnect E (c\<lparr>isdnsfinished := False\<rparr>))"
  using nz_connect [of "c\<lparr>isdnsfinished := False\<rparr>" E]
  by (auto simp add: sockDelayedConnect_def Let_def fire_def emit_def nonzero_lengths_def)

lemma nz_step:
  assumes nz: "nonzero_lengths c" and s: "step P x c = Inr c'"
  shows "nonzero_lengths c'"
proof (cases x)
  case (Op_add E d sz fl)
  then show ?thesis using nz s nz_add by auto
next
  case (Op_send E)
  then show ?thesis using nz s
    by (cases "send P E c") (auto dest: nz_send)
next
  case (Op_write E d sz fl)
  then show ?thesis using nz s
    by (cases "write_all P E d sz fl c") (auto dest: nz_write_all)
next
  case (Op_flush E)
  then show ?thesis using nz s
    by (cases "flushWriteQueue P E c") (auto dest: nz_flush)
next
  case (Op_connect E ip port)
  then show ?thesis using nz s nz_connect by auto
next
  case (Op_connect_host E ans port)
  then show ?thesis using nz s nz_connect_host by auto
next
  case (Op_dns_found a)
  then show ?thesis using nz s
    by (cases a) (auto simp add: tcpsock_dns_found_def nonzero_lengths_def)
next
  case Op_close
  then show ?thesis using nz s
    by (auto simp add: close_def teardown_queue nonzero_lengths_def split: if_splits)
next
  case Op_abort
  then show ?thesis using nz s
    by (auto simp add: abort_def teardown_queue nonzero_lengths_def split: if_splits)
next
  case (Hook_writeable E)
  then show ?thesis using nz s
    by (cases "sockIsWriteable P E c") (auto dest: nz_writeable)
next
  case (Hook_readable E)
  then show ?thesis using nz s nz_readable by auto
next
  case (Hook_poll E)
  then show ?thesis using nz s nz_poll by auto
next
  case (Hook_delayed_connect E)
  then show ?thesis using nz s nz_delayed by auto
qed (use nz s in \<open>auto simp add: nonzero_lengths_def setRxTimeout_def setAckTimeout_def
      onConnect_def onDisconnect_def onAck_def onError_def onData_def onTimeout_def
      onPoll_def\<close>)

lemma nz_run: "nonzero_lengths c \<Longrightarrow> run P ops c = Inr c' \<Longrightarrow> nonzero_lengths c'"
proof (induction ops arbitrary: c)
  case Nil
  then show ?case by simp
next
  case (Cons x xs)
  then show ?case
    by (cases "step P x c") (auto dest: nz_step)
qed

lemma nz_ctor: "nonzero_lengths (AsyncClient_ctor P a fd)"
  by (simp add: nonzero_lengths_def AsyncClient_ctor_def Let_def)

lemma nz_flushed_head:
  "nonzero_lengths c \<Longrightarrow> flushWriteQueue P E c = Inr (act, c1) \<Longrightarrow>
   writeQueue c1 = h # rest \<Longrightarrow> 0 < length_b h"
  using nz_flush [of c P E act c1] by (simp add: nonzero_lengths_def)

subsection \<open>Head access on an empty queue\<close>

text \<open>
  C1. The claim is that neither \<^verbatim>\<open>send\<close> nor the idle poll touches the head
  buffer of an empty write queue. On a freshly accepted client (descriptor 7,
  empty queue) both do: the idle poll evaluates \<^verbatim>\<open>front().queued_at\<close> before
  its size test, and \<^verbatim>\<open>send\<close>, when \<^verbatim>\<open>select\<close> reports the descriptor
  writable, enters \<^verbatim>\<open>_flushWriteQueue\<close>, which binds \<^verbatim>\<open>front()\<close> and reads its
  fields with no size test at all.
\<close>

theorem C1_head_accessed_on_empty_queue:
  "writeQueue (AsyncClient_ctor lwip 0 7) = []
   \<and> sockPoll quiet (AsyncClient_ctor lwip 0 7) = Inl Front_of_empty_queue
   \<and> send lwip quiet (AsyncClient_ctor lwip 0 7) = Inl Front_of_empty_queue"
  by (simp add: AsyncClient_ctor_def sockPoll_def send_def flushWriteQueue_def
      lwip_def quiet_def)

subsection \<open>Flushing the head buffer\<close>

text \<open>
  C2, as claimed: flush-head repeats its write attempts, so that on return the
  head is fully written, or the last attempt failed with EAGAIN or EWOULDBLOCK,
  or an error is latched. The source makes a single attempt (an \<^verbatim>\<open>if\<close>, not a
  loop): with 10 bytes queued and a write that takes 4 of them, flush-head
  returns with 4 of 10 bytes written, no failed attempt and no error latched.
\<close>

theorem C2_counterexample:
  "\<exists>c' h'. flushWriteQueue lwip (quiet\<lparr>ret := 4\<rparr>) one_queued = Inr (True, c')
     \<and> writeQueue c' = [h']
     \<and> \<not> (written h' = length_b h' \<and> written_at h' = millis (quiet\<lparr>ret := 4\<rparr>))
     \<and> \<not> ret (quiet\<lparr>ret := 4\<rparr>) < 0
     \<and> \<not> write_errno h' \<noteq> 0
     \<and> written h' = 4 \<and> length_b h' = 10"
  by (simp add: one_queued_eq accepted_eq flushWriteQueue_def Let_def emit_def quiet_def lwip_def)

text \<open>
  C2, amended: on a non-empty queue flush-head returns, and what it does is
  fixed by the head \<open>h\<close> and the answer of the one write. It makes no write
  attempt, reports no activity and changes nothing exactly when the descriptor
  is \<open>-1\<close>, or \<open>h\<close> already has an error, or \<open>h\<close> is already complete. Otherwise
  it makes exactly one attempt, on the unwritten rest of \<open>h\<close>, and leaves the
  tail of the queue alone: if the write returns \<open>r \<ge> 0\<close>, \<open>written\<close> and the
  remaining space grow by \<open>r\<close>, activity is reported, and \<open>written_at\<close> is set
  to now exactly when \<open>h\<close> is now complete (a short write leaves \<open>h\<close> short
  with no error); if the write fails with EAGAIN or EWOULDBLOCK, nothing but the
  attempt happened and no error is latched; if it fails with any other errno,
  that errno is latched in \<open>write_errno\<close> and nothing else changes.
\<close>

theorem C2_flush_single_attempt:
  assumes q: "writeQueue c = h # rest"
  shows "flushWriteQueue P E c =
     (if socket c = -1 \<or> write_errno h \<noteq> 0 \<or> length_b h \<le> written h
      then Inr (False, c)
      else
        let attempt = Sys_write (socket c) (data h + written h) (length_b h - written h);
            r = word_of_int (ret E)
        in if 0 \<le> ret E then
             Inr (True,
                  c\<lparr>writeQueue :=
                       h\<lparr>written := written h + r,
                         written_at := (if length_b h \<le> written h + r
                                        then millis E else written_at h)\<rparr> # rest,
                    writeSpaceRemaining := writeSpaceRemaining c + r,
                    trace := trace c @ [attempt]\<rparr>)
           else if errno E = EAGAIN P \<or> errno E = EWOULDBLOCK P then
             Inr (False, c\<lparr>trace := trace c @ [attempt]\<rparr>)
           else
             Inr (False, c\<lparr>writeQueue := h\<lparr>write_errno := errno E\<rparr> # rest,
                           trace := trace c @ [attempt]\<rparr>))
   \<and> (\<forall>act c'. flushWriteQueue P E c = Inr (act, c') \<longrightarrow>
         length (filter is_write (new_events c c')) =
           (if socket c = -1 \<or> write_errno h \<noteq> 0 \<or> length_b h \<le> written h
            then 0 else 1))"
  using q
  by (auto simp add: flushWriteQueue_def Let_def emit_def new_events_def not_less)

theorem C2_witness:
  "flushWriteQueue lwip (quiet\<lparr>ret := 4\<rparr>) one_queued =
     Inr (True, one_queued\<lparr>writeQueue :=
        [\<lparr> data = 0x3FFB0000, length_b = 10, written = 4, queued_at = 0, written_at = 0,
           write_errno = 0, owned = True \<rparr>],
      writeSpaceRemaining := 5834,
      trace := [Sys_memcpy 0x3FFB0000 0x3FFC0000 10, Sys_write 7 0x3FFB0000 10]\<rparr>)
   \<and> flushWriteQueue lwip (quiet\<lparr>ret := -1, errno := 11\<rparr>) one_queued =
     Inr (False, one_queued\<lparr>
      trace := [Sys_memcpy 0x3FFB0000 0x3FFC0000 10, Sys_write 7 0x3FFB0000 10]\<rparr>)
   \<and> flushWriteQueue lwip (quiet\<lparr>ret := -1, errno := 104\<rparr>) one_queued =
     Inr (False, one_queued\<lparr>writeQueue :=
        [\<lparr> data = 0x3FFB0000, length_b = 10, written = 0, queued_at = 0, written_at = 0,
           write_errno = 104, owned = True \<rparr>],
      trace := [Sys_memcpy 0x3FFB0000 0x3FFC0000 10, Sys_write 7 0x3FFB0000 10]\<rparr>)
   \<and> flushWriteQueue lwip (quiet\<lparr>ret := 4\<rparr>) (one_queued\<lparr>socket := -1\<rparr>) =
     Inr (False, one_queued\<lparr>socket := -1\<rparr>)"
proof -
  have q: "writeQueue one_queued = hd (writeQueue one_queued) # []"
    by (simp add: one_queued_eq)
  have q': "writeQueue (one_queued\<lparr>socket := -1\<rparr>) = hd (writeQueue one_queued) # []"
    by (simp add: one_queued_eq)
  show ?thesis
    using C2_flush_single_attempt [OF q, of lwip "quiet\<lparr>ret := 4\<rparr>"]
      C2_flush_single_attempt [OF q, of lwip "quiet\<lparr>ret := -1, errno := 11\<rparr>"]
      C2_flush_single_attempt [OF q, of lwip "quiet\<lparr>ret := -1, errno := 104\<rparr>"]
      C2_flush_single_attempt [OF q', of lwip "quiet\<lparr>ret := 4\<rparr>"]
    by (simp add: one_queued_eq accepted_eq flushWriteQueue_def Let_def emit_def quiet_def
        lwip_def)
qed

subsection \<open>Enqueueing\<close>

text \<open>
  C6, as claimed: \<^verbatim>\<open>add\<close> returns 0 exactly when the client is not
  established, the data is null, the size is zero or no space is left, and
  otherwise accepts \<open>min size space\<close> bytes. With the COPY flag set and an
  allocator that returns null, an established client with free space is asked
  for 16 bytes and accepts none.
\<close>

theorem C6_counterexample:
  "connected accepted \<and> (0x3FFC0000 :: 32 word) \<noteq> 0 \<and> (16 :: 32 word) > 0
   \<and> space accepted \<noteq> 0
   \<and> fst (add (quiet\<lparr>malloc_ret := 0\<rparr>) 0x3FFC0000 16 ASYNC_WRITE_FLAG_COPY accepted)
       \<noteq> min 16 (space accepted)
   \<and> add (quiet\<lparr>malloc_ret := 0\<rparr>) 0x3FFC0000 16 ASYNC_WRITE_FLAG_COPY accepted
       = (0, accepted)"
  by (simp add: accepted_eq add_def connected_def space_def Let_def emit_def
      quiet_def ASYNC_WRITE_FLAG_COPY_def)

text \<open>
  C6, amended: \<^verbatim>\<open>add\<close> returns 0 and changes nothing when the client is not
  established, the data is null, the size is zero, no space is left, or the COPY
  flag is set and the allocation fails. Otherwise it accepts
  \<open>will_send = min size space\<close> bytes: it appends one buffer of that length with
  \<open>written = 0\<close>, \<open>written_at = 0\<close>, \<open>write_errno = 0\<close> and \<open>queued_at\<close> now (the
  allocated block, filled by \<^verbatim>\<open>memcpy\<close> and owned, when COPY is set; the
  caller's pointer, not owned, otherwise), takes \<open>will_send\<close> off the remaining
  space, clears the ack-timeout latch and returns \<open>will_send\<close>.
\<close>

theorem C6_add:
  "add E dat sz fl c =
     (if \<not> connected c \<or> dat = 0 \<or> sz = 0 \<or> space c = 0
         \<or> (fl AND ASYNC_WRITE_FLAG_COPY \<noteq> 0 \<and> malloc_ret E = 0)
      then (0, c)
      else
        let will_send = min sz (space c);
            copy = (fl AND ASYNC_WRITE_FLAG_COPY \<noteq> 0)
        in (will_send,
            c\<lparr>writeQueue := writeQueue c @
                  [\<lparr> data = (if copy then malloc_ret E else dat), length_b = will_send,
                     written = 0, queued_at = millis E, written_at = 0, write_errno = 0,
                     owned = copy \<rparr>],
              writeSpaceRemaining := writeSpaceRemaining c - will_send,
              ack_timeout_signaled := False,
              trace := trace c @ (if copy then [Sys_memcpy (malloc_ret E) dat will_send]
                                  else [])\<rparr>))"
  by (auto simp add: add_def Let_def emit_def min_def)

theorem C6_witness:
  "add quiet 0x3FFC0000 6000 ASYNC_WRITE_FLAG_COPY accepted =
     (5840, accepted\<lparr>writeQueue :=
        [\<lparr> data = 0x3FFB0000, length_b = 5840, written = 0, queued_at = 1000, written_at = 0,
           write_errno = 0, owned = True \<rparr>],
      writeSpaceRemaining := 0,
      trace := [Sys_memcpy 0x3FFB0000 0x3FFC0000 5840]\<rparr>)"
  using C6_add [of quiet "0x3FFC0000" 6000 ASYNC_WRITE_FLAG_COPY accepted]
  by (simp add: accepted_eq connected_def space_def Let_def quiet_def ASYNC_WRITE_FLAG_COPY_def)

subsection \<open>Peer close\<close>

text \<open>
  C8. When the read of the readable hook returns 0, the close teardown runs:
  the state becomes CLOSED, the descriptor is closed and set to \<open>-1\<close>, the queue
  is dropped after the owned buffers are freed, the disconnect handler fires if
  one is registered, and the error handler does not fire.
\<close>

theorem C8_peer_close:
  "ret E = 0 \<Longrightarrow>
   conn_state (sockIsReadable P E c) = 0
   \<and> socket (sockIsReadable P E c) = -1
   \<and> writeQueue (sockIsReadable P E c) = []
   \<and> new_events c (sockIsReadable P E c) =
       [Sys_close (socket c)] @ frees_of (writeQueue c)
       @ (if discard_cb c then [Cb_discard] else [])
   \<and> filter is_error (new_events c (sockIsReadable P E c)) = []"
  by (simp add: sockIsReadable_def Let_def priv_close_eq removeAllCallbacks_def
      new_events_def frees_of_def)

theorem C8_witness:
  "new_events (one_queued\<lparr>discard_cb := True, error_cb := True\<rparr>)
     (sockIsReadable lwip (quiet\<lparr>ret := 0\<rparr>)
        (one_queued\<lparr>discard_cb := True, error_cb := True\<rparr>))
   = [Sys_close 7, Sys_free 0x3FFB0000, Cb_discard]"
  using C8_peer_close [of "quiet\<lparr>ret := 0\<rparr>" lwip
                          "one_queued\<lparr>discard_cb := True, error_cb := True\<rparr>"]
  by (simp add: one_queued_eq accepted_eq quiet_def frees_of_def)

subsection \<open>Delayed connect\<close>

text \<open>
  C9. The delayed-connect hook, run after the resolver has answered: with a
  nonzero \<open>connect_addr\<close> it is the IPv4 connect to \<open>connect_addr\<close> and
  \<open>connect_port\<close>; with a zero \<open>connect_addr\<close> it changes nothing but fires the
  error handler with \<open>-55\<close> and then the disconnect handler, in that order (each
  if registered).
\<close>

theorem C9_delayed_connect:
  "(connect_addr c \<noteq> 0 \<longrightarrow>
      sockDelayedConnect E c = snd (connect E (connect_addr c) (connect_port c) c))
   \<and> (connect_addr c = 0 \<longrightarrow>
      sockDelayedConnect E c = c\<lparr>trace := trace c
          @ (if error_cb c then [Cb_error (-55)] else [])
          @ (if discard_cb c then [Cb_discard] else [])\<rparr>)"
  by (simp add: sockDelayedConnect_def Let_def fire_def emit_def)

theorem C9_witness:
  "new_events unresolved (sockDelayedConnect quiet (tcpsock_dns_found None unresolved))
     = [Cb_error (-55), Cb_discard]
   \<and> new_events unresolved
        (sockDelayedConnect quiet (tcpsock_dns_found (Some 0x0100007F) unresolved))
     = [Sys_connect 5 0x0100007F 0]
   \<and> conn_state (sockDelayedConnect quiet (tcpsock_dns_found (Some 0x0100007F) unresolved))
     = 2"
  using C9_delayed_connect [of "tcpsock_dns_found None unresolved" quiet]
    C9_delayed_connect [of "tcpsock_dns_found (Some 0x0100007F) unresolved" quiet]
  by (simp add: tcpsock_dns_found_def unresolved_eq connect_def quiet_def Let_def emit_def
      new_events_def)

subsection \<open>The writable hook in state ESTABLISHED\<close>

text \<open>
  C7. On an established client the writable hook returns. With an empty queue
  it does nothing. Otherwise it flushes the head once and fires the ack handler
  at most once. If the flushed head \<open>h\<close> carries no error, the queue afterwards
  is the same or has lost exactly \<open>h\<close>; if moreover \<open>h\<close> is fully written, \<open>h\<close>
  is popped, its data is freed exactly when it is owned, and the ack handler
  (when one is registered) fires once with the length of \<open>h\<close> and the delay
  \<open>written_at - queued_at\<close>; if \<open>h\<close> is still short, nothing beyond the flush
  happens. The client is any established client reached from the constructor:
  there no queued buffer has length zero, which the source's test
  \<^verbatim>\<open>sent_cb_length > 0\<close> relies on.
\<close>

theorem C7_retire_one_per_tick:
  assumes reach: "run P ops (AsyncClient_ctor P a fd) = Inr c"
      and est: "conn_state c = 4"
  shows "(writeQueue c = [] \<longrightarrow> sockIsWriteable P E c = Inr (False, c))
     \<and> (writeQueue c \<noteq> [] \<longrightarrow>
          (\<exists>act c1 h. flushWriteQueue P E c = Inr (act, c1)
             \<and> writeQueue c1 = h # tl (writeQueue c)))
     \<and> (\<forall>act c1 h rest.
          flushWriteQueue P E c = Inr (act, c1) \<longrightarrow> writeQueue c1 = h # rest \<longrightarrow>
          (\<exists>c'. sockIsWriteable P E c = Inr (act, c')
             \<and> length (filter is_sent (new_events c c')) \<le> 1
             \<and> (write_errno h = 0 \<longrightarrow> writeQueue c' = h # rest \<or> writeQueue c' = rest)
             \<and> (write_errno h = 0 \<and> length_b h \<le> written h \<longrightarrow>
                  writeQueue c' = rest
                  \<and> new_events c1 c' =
                      (if owned h then [Sys_free (data h)] else [])
                      @ (if sent_cb c
                         then [Cb_sent (length_b h) (written_at h - queued_at h)] else []))
             \<and> (write_errno h = 0 \<and> written h < length_b h \<longrightarrow> c' = c1)))"
proof (intro conjI allI impI)
  assume "writeQueue c = []"
  then show "sockIsWriteable P E c = Inr (False, c)"
    using est by (simp add: sockIsWriteable_def)
next
  assume "writeQueue c \<noteq> []"
  then obtain x xs where "writeQueue c = x # xs" by (cases "writeQueue c") auto
  then show "\<exists>act c1 h. flushWriteQueue P E c = Inr (act, c1)
                \<and> writeQueue c1 = h # tl (writeQueue c)"
    using flush_total [of c x xs P E] by simp
next
  fix act c1 h rest
  assume fl: "flushWriteQueue P E c = Inr (act, c1)" and q1: "writeQueue c1 = h # rest"
  have st: "conn_state c \<noteq> 2" "conn_state c \<noteq> 3" using est by simp_all
  note w = writeable_after_flush [OF st fl q1]
  note ff = flush_fields [OF fl]
  have pos: "0 < length_b h"
    using nz_flushed_head [OF nz_run [OF nz_ctor reach] fl q1] .
  obtain es where es: "trace c1 = trace c @ es" using flush_trace_prefix [OF fl] by blast
  have ns: "filter is_sent es = []"
    using flush_trace [OF fl] es by (simp add: new_events_def)
  show "\<exists>c'. sockIsWriteable P E c = Inr (act, c')
             \<and> length (filter is_sent (new_events c c')) \<le> 1
             \<and> (write_errno h = 0 \<longrightarrow> writeQueue c' = h # rest \<or> writeQueue c' = rest)
             \<and> (write_errno h = 0 \<and> length_b h \<le> written h \<longrightarrow>
                  writeQueue c' = rest
                  \<and> new_events c1 c' =
                      (if owned h then [Sys_free (data h)] else [])
                      @ (if sent_cb c
                         then [Cb_sent (length_b h) (written_at h - queued_at h)] else []))
             \<and> (write_errno h = 0 \<and> written h < length_b h \<longrightarrow> c' = c1)"
  proof (cases "write_errno h = 0")
    case False
    then show ?thesis
      using w es ns
      by (simp add: new_events_def priv_error_eq removeAllCallbacks_def frees_of_def
          filter_map comp_def)
  next
    case ok: True
    show ?thesis
    proof (cases "length_b h \<le> written h")
      case True
      then show ?thesis
        using w ok q1 ff es ns pos by (simp add: new_events_def)
    next
      case False
      then show ?thesis
        using w ok q1 es ns by (simp add: new_events_def)
    qed
  qed
qed

theorem C7_witness:
  "run lwip [Op_add (quiet\<lparr>millis := 0\<rparr>) 0x3FFC0000 10 ASYNC_WRITE_FLAG_COPY, Op_onAck True]
       (AsyncClient_ctor lwip 0 7) = Inr (one_queued\<lparr>sent_cb := True\<rparr>)
   \<and> sockIsWriteable lwip (quiet\<lparr>ret := 10\<rparr>) (one_queued\<lparr>sent_cb := True\<rparr>) =
     Inr (True, one_queued\<lparr>sent_cb := True, rx_last_packet := 1000, writeQueue := [],
                 writeSpaceRemaining := 5840,
                 trace := [Sys_memcpy 0x3FFB0000 0x3FFC0000 10, Sys_write 7 0x3FFB0000 10,
                           Sys_free 0x3FFB0000, Cb_sent 10 1000]\<rparr>)"
proof -
  have reach: "run lwip [Op_add (quiet\<lparr>millis := 0\<rparr>) 0x3FFC0000 10 ASYNC_WRITE_FLAG_COPY,
                         Op_onAck True]
                 (AsyncClient_ctor lwip 0 7) = Inr (one_queued\<lparr>sent_cb := True\<rparr>)"
    by (simp add: one_queued_def accepted_def onAck_def)
  have est: "conn_state (one_queued\<lparr>sent_cb := True\<rparr>) = 4"
    by (simp add: one_queued_eq accepted_eq)
  show ?thesis
    using C7_retire_one_per_tick [OF reach est, of "quiet\<lparr>ret := 10\<rparr>"] reach
    by (simp add: one_queued_eq accepted_eq sockIsWriteable_def flushWriteQueue_def Let_def
        emit_def quiet_def lwip_def)
qed

text \<open>
  C10. When the writable hook finds the head fully written with a completion
  time later than \<open>rx_last_packet\<close>, it moves \<open>rx_last_packet\<close> to that time.
  So an idle poll that comes less than the rx timeout after the completion does
  not close the connection, however long ago the last byte was received.
\<close>

theorem C10_completion_defers_rx_timeout:
  assumes est: "conn_state c = 4"
      and fl: "flushWriteQueue P E c = Inr (act, c1)"
      and q1: "writeQueue c1 = h # rest"
      and ok: "write_errno h = 0"
      and full: "length_b h \<le> written h"
      and later: "rx_last_packet c < written_at h"
  shows "\<exists>c'. sockIsWriteable P E c = Inr (act, c')
      \<and> rx_last_packet c' = written_at h
      \<and> (\<forall>E2 c''. sockPoll E2 c' = Inr c'' \<longrightarrow>
            millis E2 - written_at h < rx_since_timeout c * 1000 \<longrightarrow>
            socket c'' = socket c \<and> conn_state c'' = 4)"
proof -
  have st: "conn_state c \<noteq> 2" "conn_state c \<noteq> 3" using est by simp_all
  note w = writeable_after_flush [OF st fl q1]
  note ff = flush_fields [OF fl]
  define c' where "c' = c1\<lparr>rx_last_packet := max (rx_last_packet c1) (written_at h),
                          writeQueue := rest,
                          trace := trace c1
                            @ (if owned h then [Sys_free (data h)] else [])
                            @ (if 0 < length_b h \<and> sent_cb c1
                               then [Cb_sent (length_b h) (written_at h - queued_at h)]
                               else [])\<rparr>"
  have hook: "sockIsWriteable P E c = Inr (act, c')"
    using w ok full by (simp add: c'_def)
  have rx: "rx_last_packet c' = written_at h"
    using later ff by (auto simp add: c'_def max_def)
  have same: "socket c' = socket c" "conn_state c' = 4" "rx_since_timeout c' = rx_since_timeout c"
    using ff est by (simp_all add: c'_def)
  have poll: "socket c'' = socket c \<and> conn_state c'' = 4"
    if p: "sockPoll E2 c' = Inr c''"
      and t: "millis E2 - written_at h < rx_since_timeout c * 1000" for E2 c''
    using poll_keeps_open [OF p] t rx same by (simp add: not_le)
  show ?thesis
    using hook rx poll by blast
qed

theorem C10_witness:
  "(case run lwip [Op_setRxTimeout 2, Hook_writeable (quiet\<lparr>ret := 10, millis := 1900\<rparr>),
                   Hook_poll (quiet\<lparr>millis := 2100\<rparr>)] two_queued of
      Inl f \<Rightarrow> False
    | Inr c \<Rightarrow> rx_last_packet c = 1900 \<and> conn_state c = 4 \<and> socket c = 7)
   \<and> (case run lwip [Op_setRxTimeout 2, Hook_poll (quiet\<lparr>millis := 2100\<rparr>)] two_queued of
      Inl f \<Rightarrow> False
    | Inr c \<Rightarrow> rx_last_packet c = 0 \<and> conn_state c = 0 \<and> socket c = -1)"
proof -
  define c where "c = setRxTimeout 2 two_queued"
  define E where "E = quiet\<lparr>ret := 10, millis := 1900\<rparr>"
  define c1 where "c1 = snd (projr (flushWriteQueue lwip E c))"
  define h where "h = hd (writeQueue c1)"
  define rest where "rest = tl (writeQueue c1)"
  note ev = c_def E_def two_queued_eq accepted_eq setRxTimeout_def flushWriteQueue_def Let_def
    emit_def quiet_def lwip_def
  have c1: "c1 = c\<lparr>writeQueue :=
        [\<lparr> data = 0x3FFB0000, length_b = 10, written = 10, queued_at = 0, written_at = 1900,
           write_errno = 0, owned = True \<rparr>,
         \<lparr> data = 0x3FFC0010, length_b = 4, written = 0, queued_at = 0, written_at = 0,
           write_errno = 0, owned = False \<rparr>],
      writeSpaceRemaining := 5836,
      trace := [Sys_memcpy 0x3FFB0000 0x3FFC0000 10, Sys_write 7 0x3FFB0000 10]\<rparr>"
    unfolding c1_def by (simp add: ev)
  have est: "conn_state c = 4" by (simp add: ev)
  have fl: "flushWriteQueue lwip E c = Inr (True, c1)"
    unfolding c1_def by (simp add: ev)
  have q1: "writeQueue c1 = h # rest" by (simp add: h_def rest_def c1)
  have ok: "write_errno h = 0" by (simp add: h_def c1)
  have full: "length_b h \<le> written h" by (simp add: h_def c1)
  have later: "rx_last_packet c < written_at h" by (simp add: h_def c1 ev)
  from C10_completion_defers_rx_timeout [OF est fl q1 ok full later]
  show ?thesis
    by (simp add: two_queued_eq accepted_eq setRxTimeout_def sockIsWriteable_def
        flushWriteQueue_def sockPoll_def priv_close_eq removeAllCallbacks_def fire_def
        Let_def emit_def quiet_def lwip_def)
qed

subsection \<open>Space accounting\<close>



subsection \<open>The ack-timeout latch\<close>

text \<open>
  C4, as claimed: the timeout handler fires at most once until the head buffer
  changes, by retiring or by a new enqueue, after which a new stall may fire it
  again. In the source, retiring the head does not re-arm the notification. Two buffers are
  queued at time 0 with an ack timeout of 500 ms; the poll at 600 fires the
  handler; at 700 the first buffer is written and retired; at 2000 the second
  buffer, now the head, has been stalled for 2000 ms, and the poll fires nothing:
  the latch is still set.
\<close>

theorem C4_counterexample:
  "(case run lwip [Op_setAckTimeout 500, Op_onTimeout True,
                   Hook_poll (quiet\<lparr>millis := 600\<rparr>),
                   Hook_writeable (quiet\<lparr>ret := 10, millis := 700\<rparr>),
                   Hook_poll (quiet\<lparr>millis := 2000\<rparr>)] two_queued of
      Inl f \<Rightarrow> False
    | Inr c \<Rightarrow>
        map data (writeQueue two_queued) = [0x3FFB0000, 0x3FFC0010]
        \<and> map data (writeQueue c) = [0x3FFC0010]
        \<and> ack_timeout c = 500 \<and> timeout_cb c
        \<and> ack_timeout c \<le> 2000 - queued_at (hd (writeQueue c))
        \<and> filter is_timeout (trace c) = [Cb_timeout 600]
        \<and> ack_timeout_signaled c)"
  by (simp add: two_queued_eq accepted_eq setAckTimeout_def onTimeout_def sockPoll_def
      sockIsWriteable_def flushWriteQueue_def fire_def Let_def emit_def quiet_def lwip_def)

text \<open>
  C4, amended: once the handler has fired, the latch \<open>ack_timeout_signaled\<close>
  stays set and the handler does not fire again through any sequence of
  operations that neither enqueues nor connects (polls, writable and readable
  hooks, \<^verbatim>\<open>send\<close>, setters, close), whether or not the head retires; an \<^verbatim>\<open>add\<close>
  that accepts bytes clears the latch; and a poll that finds the latch clear,
  a nonzero ack timeout and a head queued at least that long ago sets the latch
  and fires the handler (if registered) with the delay.
\<close>

theorem C4_ack_timeout_latch:
  "(latched c \<longrightarrow> list_all (\<lambda>x. \<not> rearms x) ops \<longrightarrow> run P ops c = Inr c' \<longrightarrow>
      latched c' \<and> timeouts c' = timeouts c)
   \<and> (fst (add E dat sz fl c) \<noteq> 0 \<longrightarrow> \<not> ack_timeout_signaled (snd (add E dat sz fl c)))
   \<and> (socket c \<noteq> -1 \<longrightarrow> writeQueue c = h # rest \<longrightarrow> \<not> ack_timeout_signaled c \<longrightarrow>
      ack_timeout c \<noteq> 0 \<longrightarrow> ack_timeout c \<le> millis E - queued_at h \<longrightarrow>
        sockPoll E c =
          Inr (c\<lparr>ack_timeout_signaled := True,
                 trace := trace c @ (if timeout_cb c
                                     then [Cb_timeout (millis E - queued_at h)] else [])\<rparr>))"
proof -
  have a: "latched c' \<and> timeouts c' = timeouts c"
    if "latched c" "list_all (\<lambda>x. \<not> rearms x) ops" "run P ops c = Inr c'"
    using latched_run [OF that] .
  have b: "\<not> ack_timeout_signaled (snd (add E dat sz fl c))"
    if "fst (add E dat sz fl c) \<noteq> 0"
    using that by (auto simp add: add_def Let_def emit_def split: if_splits)
  have p: "sockPoll E c =
          Inr (c\<lparr>ack_timeout_signaled := True,
                 trace := trace c @ (if timeout_cb c
                                     then [Cb_timeout (millis E - queued_at h)] else [])\<rparr>)"
    if "socket c \<noteq> -1" "writeQueue c = h # rest" "\<not> ack_timeout_signaled c"
      "ack_timeout c \<noteq> 0" "ack_timeout c \<le> millis E - queued_at h"
    using that by (simp add: sockPoll_def Let_def fire_def emit_def)
  show ?thesis using a b p by blast
qed

theorem C4_witness:
  "(case run lwip [Op_setAckTimeout 500, Op_onTimeout True,
                   Hook_poll (quiet\<lparr>millis := 600\<rparr>),
                   Hook_poll (quiet\<lparr>millis := 900\<rparr>),
                   Op_add (quiet\<lparr>millis := 1000\<rparr>) 0x3FFC0020 4 0,
                   Hook_poll (quiet\<lparr>millis := 1200\<rparr>),
                   Hook_poll (quiet\<lparr>millis := 1400\<rparr>)] two_queued of
      Inl f \<Rightarrow> False
    | Inr c \<Rightarrow> timeouts c = [Cb_timeout 600, Cb_timeout 1200])"
proof -
  define c where "c = projr (run lwip [Op_setAckTimeout 500, Op_onTimeout True,
                   Hook_poll (quiet\<lparr>millis := 600\<rparr>)] two_queued)"
  define c2 where "c2 = snd (add (quiet\<lparr>millis := 1000\<rparr>) 0x3FFC0020 4 0 c)"
  note ev = two_queued_eq accepted_eq setAckTimeout_def onTimeout_def sockPoll_def
      fire_def Let_def emit_def quiet_def lwip_def add_def connected_def space_def
      ASYNC_WRITE_FLAG_COPY_def timeouts_def
  have l: "latched c" unfolding c_def by (simp add: ev latched_def)
  have ops: "list_all (\<lambda>x. \<not> rearms x) [Hook_poll (quiet\<lparr>millis := 900\<rparr>)]" by simp
  have r: "run lwip [Hook_poll (quiet\<lparr>millis := 900\<rparr>)] c = Inr c"
    unfolding c_def by (simp add: ev)
  have acc: "fst (add (quiet\<lparr>millis := 1000\<rparr>) 0x3FFC0020 4 0 c) \<noteq> 0"
    unfolding c_def by (simp add: ev)
  have stalled: "socket c2 \<noteq> -1" "writeQueue c2 = hd (writeQueue c2) # tl (writeQueue c2)"
    "\<not> ack_timeout_signaled c2" "ack_timeout c2 \<noteq> 0"
    "ack_timeout c2 \<le> millis (quiet\<lparr>millis := 1200\<rparr>) - queued_at (hd (writeQueue c2))"
    unfolding c2_def c_def by (simp_all add: ev)
  show ?thesis
    using C4_ack_timeout_latch [of c "[Hook_poll (quiet\<lparr>millis := 900\<rparr>)]" lwip c
        "quiet\<lparr>millis := 1000\<rparr>" "0x3FFC0020" 4 0 "hd (writeQueue c)" "tl (writeQueue c)"]
      C4_ack_timeout_latch [of c2 "[]" lwip c2
        "quiet\<lparr>millis := 1200\<rparr>" "0x3FFC0020" 4 0 "hd (writeQueue c2)" "tl (writeQueue c2)"]
      l ops r acc stalled
    by (simp add: ev)
qed

subsection \<open>Descriptor and state\<close>

text \<open>
  C5. The descriptor is \<open>-1\<close> exactly when the state is CLOSED: the constructor
  establishes it; the IPv4 connect, the close teardown and the error teardown
  preserve it, as does every other operation and hook; so it holds after every
  sequence of operations on a constructed client.
\<close>

theorem C5_descriptor_state_coherence:
  "coherent (AsyncClient_ctor P a fd)
   \<and> (coherent c \<longrightarrow> coherent (snd (connect E ip port c)))
   \<and> coherent (priv_close c)
   \<and> coherent (priv_error err c)
   \<and> (\<forall>c'. coherent c \<longrightarrow> step P x c = Inr c' \<longrightarrow> coherent c')
   \<and> (\<forall>c'. run P ops (AsyncClient_ctor P a fd) = Inr c' \<longrightarrow> coherent c')"
  using coherent_ctor coherent_connect coherent_priv_close coherent_priv_error
    coherent_step coherent_run
  by blast

theorem C5_witness:
  "(case run lwip [Op_connect quiet 0x0100007F 80, Hook_writeable quiet]
           (AsyncClient_ctor lwip 0 (-1)) of
      Inl f \<Rightarrow> False
    | Inr c \<Rightarrow> coherent c \<and> socket c = 5 \<and> conn_state c = 4)
   \<and> (case run lwip [Op_connect quiet 0x0100007F 80, Hook_writeable quiet,
                     Hook_readable quiet] (AsyncClient_ctor lwip 0 (-1)) of
      Inl f \<Rightarrow> False
    | Inr c \<Rightarrow> coherent c \<and> socket c = -1 \<and> conn_state c = 0)"
  using C5_descriptor_state_coherence
    [of lwip 0 "-1" accepted quiet 0 0 0 Op_close
        "[Op_connect quiet 0x0100007F 80, Hook_writeable quiet]"]
  by (simp add: AsyncClient_ctor_def connect_def sockIsWriteable_def sockIsReadable_def
      priv_close_eq removeAllCallbacks_def fire_def Let_def emit_def quiet_def lwip_def
      coherent_def ASYNC_MAX_ACK_TIME_def)

end
